theory Spec2Isabelle
  imports Complex_Main
begin

section \<open>Self-preview renderer: a model of \<open>self_preview.py\<close>\<close>

text \<open>
  The module renders named items to PNG files and tiles them into one overview image.
  Its effects are calls into the three abstract methods of \<open>PreviewRenderer\<close>, calls
  into Pillow, the file system and the console. The model records them as an ordered
  list of events; a Pillow image is the size it was created with together with the
  drawing calls made on it, in order.

  What an implementation of the three abstract methods does besides returning (the
  line that \<open>ExampleRenderer.load_artifact\<close> prints, for instance) is not part of the
  events: a renderer is the values its methods return. Paths are joined as \<open>posixpath\<close>
  joins them.

  Python integers are \<open>int\<close>. The two floating-point expressions of
  \<open>render_overview\<close> (\<open>math.sqrt(n * 1.5)\<close> and \<open>n / cols\<close>) are taken over the
  reals: the square root and the quotient are the exact ones. Pillow calls are recorded,
  not validated: the model has no branch for an error raised inside Pillow or by the
  file system. Errors raised by Python's own operations in the module (\<open>range\<close> with a
  zero step, division by zero) are values of type \<open>error\<close>.
\<close>

subsection \<open>Images, drawing calls and events\<close>

datatype color = RGB int int int | RGBA int int int int

datatype error = ValueError | ZeroDivisionError

datatype resampling = LANCZOS

datatype pil_image = Image (im_size: "int \<times> int") (im_base: base) (im_ops: "draw_op list")
and base =
    Blank string color
  | Resized pil_image resampling
and draw_op =
    Line "(int \<times> int) list" color int
  | Text "int \<times> int" string color
  | Rectangle "int list" color int
  | Rounded_rectangle "int list" int color color int
  | Paste pil_image "int \<times> int"

datatype event =
    Print string
  | Makedirs string
  | Render_item string int bool
  | Save string pil_image

text \<open>\<open>Image.new(mode, size, color)\<close>, a drawing call on an image, \<open>Image.resize\<close> and
  \<open>Image.paste\<close>.\<close>

definition Image_new :: "string \<Rightarrow> int \<times> int \<Rightarrow> color \<Rightarrow> pil_image" where
  "Image_new mode sz c = Image sz (Blank mode c) []"

definition draw_on :: "pil_image \<Rightarrow> draw_op \<Rightarrow> pil_image" where
  "draw_on img op = Image (im_size img) (im_base img) (im_ops img @ [op])"

definition resize :: "pil_image \<Rightarrow> int \<times> int \<Rightarrow> resampling \<Rightarrow> pil_image" where
  "resize img sz resample = Image sz (Resized img resample) []"

definition paste :: "pil_image \<Rightarrow> pil_image \<Rightarrow> int \<times> int \<Rightarrow> pil_image" where
  "paste target img pos = draw_on target (Paste img pos)"

subsection \<open>Python and library operations used by the module\<close>

text \<open>\<open>range(start, stop, step)\<close>: a zero step raises \<open>ValueError\<close>.\<close>

definition py_range :: "int \<Rightarrow> int \<Rightarrow> int \<Rightarrow> error + int list" where
  "py_range start stop step =
     (if step = 0 then Inl ValueError
      else if 0 < step then
        Inr (map (\<lambda>i. start + int i * step) [0..<nat ((stop - start + step - 1) div step)])
      else
        Inr (map (\<lambda>i. start + int i * step) [0..<nat ((start - stop - step - 1) div (- step))]))"

text \<open>\<open>a / b\<close> on integers: true division, \<open>ZeroDivisionError\<close> when \<open>b\<close> is zero.\<close>

definition py_truediv :: "int \<Rightarrow> int \<Rightarrow> error + real" where
  "py_truediv a b = (if b = 0 then Inl ZeroDivisionError else Inr (real_of_int a / real_of_int b))"

text \<open>\<open>s.replace(old, new)\<close> where \<open>old\<close> and \<open>new\<close> are one character each. The two
  characters replaced by the module are ASCII, so replacing bytes and replacing code
  points agree.\<close>

definition str_replace :: "string \<Rightarrow> char \<Rightarrow> char \<Rightarrow> string" where
  "str_replace s old new = map (\<lambda>c. if c = old then new else c) s"

text \<open>\<open>os.path.join(a, b)\<close> of \<open>posixpath\<close>.\<close>

definition os_path_join :: "string \<Rightarrow> string \<Rightarrow> string" where
  "os_path_join a b =
     (if b \<noteq> [] \<and> hd b = CHR ''/'' then b
      else if a = [] \<or> last a = CHR ''/'' then a @ b
      else a @ ''/'' @ b)"

text \<open>\<open>str(i)\<close> of an integer, as the f-strings of the module format it.\<close>

fun str_nat :: "nat \<Rightarrow> string" where
  "str_nat n =
     (if n < 10 then [char_of (48 + n)] else str_nat (n div 10) @ [char_of (48 + n mod 10)])"

declare str_nat.simps [simp del]

definition str_int :: "int \<Rightarrow> string" where
  "str_int i = (if i < 0 then CHR ''-'' # str_nat (nat (- i)) else str_nat (nat i))"

text \<open>\<open>xs.index(x)\<close> for an \<open>x\<close> that occurs in \<open>xs\<close>: the first position.\<close>

fun list_index :: "'a list \<Rightarrow> 'a \<Rightarrow> nat" where
  "list_index [] x = 0"
| "list_index (y # ys) x = (if y = x then 0 else Suc (list_index ys x))"

subsection \<open>Configuration\<close>

definition OUTPUT_DIR :: string where "OUTPUT_DIR = ''build/previews''"
definition OVERVIEW_FILENAME :: string where "OVERVIEW_FILENAME = ''overview.png''"

definition DEFAULT_SIZE :: int where "DEFAULT_SIZE = 400"
definition BG_COLOR :: color where "BG_COLOR = RGB 26 26 46"
definition FG_COLOR :: color where "FG_COLOR = RGB 224 224 255"
definition LABEL_COLOR :: color where "LABEL_COLOR = RGB 180 180 200"

definition GRID_CELL_SIZE :: int where "GRID_CELL_SIZE = 120"
definition GRID_PADDING :: int where "GRID_PADDING = 8"
definition GRID_BG :: color where "GRID_BG = RGB 20 20 35"

datatype overlay_key = primary | secondary | tertiary | baseline | accent

fun OVERLAY_COLORS :: "overlay_key \<Rightarrow> color" where
  "OVERLAY_COLORS primary = RGBA 255 80 80 100"
| "OVERLAY_COLORS secondary = RGBA 255 220 60 100"
| "OVERLAY_COLORS tertiary = RGBA 80 220 120 100"
| "OVERLAY_COLORS baseline = RGBA 80 140 255 100"
| "OVERLAY_COLORS accent = RGBA 180 100 255 100"

subsection \<open>The renderer\<close>

text \<open>
  A \<open>PreviewRenderer\<close> is its output directory and its three abstract methods:
  \<open>load_artifact\<close> is the truth value of what the method returns, \<open>render_item\<close>
  returns an image or \<open>None\<close>, \<open>get_items\<close> is the list it returns.
\<close>

record renderer =
  output_dir :: string
  load_artifact :: bool
  render_item :: "string \<Rightarrow> int \<Rightarrow> bool \<Rightarrow> pil_image option"
  get_items :: "string list"

subsection \<open>Overlay helpers\<close>

text \<open>The drawing handle of \<open>ImageDraw.Draw(img)\<close> is the image it draws on. An
  optional label is drawn when it is neither \<open>None\<close> nor empty.\<close>

definition label_given :: "string option \<Rightarrow> bool" where
  "label_given label = (case label of None \<Rightarrow> False | Some s \<Rightarrow> s \<noteq> [])"

definition draw_horizontal_line ::
  "pil_image \<Rightarrow> int \<Rightarrow> int \<Rightarrow> color \<Rightarrow> string option \<Rightarrow> pil_image" where
  "draw_horizontal_line draw y width c label =
     (let draw1 = draw_on draw (Line [(0, y), (width, y)] c 1)
      in if label_given label then draw_on draw1 (Text (4, y - 14) (the label) c) else draw1)"

definition draw_vertical_line ::
  "pil_image \<Rightarrow> int \<Rightarrow> int \<Rightarrow> color \<Rightarrow> string option \<Rightarrow> pil_image" where
  "draw_vertical_line draw x height c label =
     (let draw1 = draw_on draw (Line [(x, 0), (x, height)] c 1)
      in if label_given label then draw_on draw1 (Text (x + 4, 4) (the label) c) else draw1)"

definition draw_grid ::
  "pil_image \<Rightarrow> int \<Rightarrow> int \<Rightarrow> int \<Rightarrow> color \<Rightarrow> error + pil_image" where
  "draw_grid draw width height spacing c =
     (case py_range 0 width spacing of
        Inl e \<Rightarrow> Inl e
      | Inr xs \<Rightarrow>
          (let draw1 = fold (\<lambda>x d. draw_on d (Line [(x, 0), (x, height)] c 1)) xs draw
           in case py_range 0 height spacing of
                Inl e \<Rightarrow> Inl e
              | Inr ys \<Rightarrow> Inr (fold (\<lambda>y d. draw_on d (Line [(0, y), (width, y)] c 1)) ys draw1)))"

definition draw_grid_default_color :: color where
  "draw_grid_default_color = RGBA 60 60 80 80"

definition draw_bounding_box ::
  "pil_image \<Rightarrow> int \<Rightarrow> int \<Rightarrow> int \<Rightarrow> int \<Rightarrow> color \<Rightarrow> string option \<Rightarrow> pil_image" where
  "draw_bounding_box draw x y w h c label =
     (let draw1 = draw_on draw (Rectangle [x, y, x + w, y + h] c 1)
      in if label_given label then draw_on draw1 (Text (x, y - 14) (the label) c) else draw1)"

definition draw_label :: "pil_image \<Rightarrow> int \<Rightarrow> int \<Rightarrow> string \<Rightarrow> color \<Rightarrow> pil_image" where
  "draw_label draw x y text c = draw_on draw (Text (x, y) text c)"

subsection \<open>Rendering pipeline\<close>

text \<open>\<open>render_items\<close>: the directory is created, then each name is rendered in turn.\<close>

definition safe_name :: "string \<Rightarrow> string" where
  "safe_name name = str_replace (str_replace name (CHR ''/'') (CHR ''_'')) (CHR 0x5C) (CHR ''_'')"

fun render_items_loop :: "renderer \<Rightarrow> string list \<Rightarrow> int \<Rightarrow> bool \<Rightarrow> event list" where
  "render_items_loop r [] sz overlays = []"
| "render_items_loop r (name # rest) sz overlays =
     Render_item name sz overlays #
     (case render_item r name sz overlays of
        None \<Rightarrow>
          [Print (''  Warning: render_item returned None for '' @ [CHR 0x27] @ name @ [CHR 0x27]
                  @ '', skipping'')]
      | Some img \<Rightarrow>
          (let path = os_path_join (output_dir r) (safe_name name @ ''.png'')
           in [Save path img, Print (''  '' @ name @ '' -> '' @ path)]))
     @ render_items_loop r rest sz overlays"

definition render_items :: "renderer \<Rightarrow> string list \<Rightarrow> int \<Rightarrow> bool \<Rightarrow> event list" where
  "render_items r item_names sz overlays =
     Makedirs (output_dir r) # render_items_loop r item_names sz overlays"

text \<open>\<open>render_overview\<close>: the grid geometry, then one loop iteration per item.\<close>

definition overview_cols :: "nat \<Rightarrow> int" where
  "overview_cols n = min \<lceil>sqrt (real n * 1.5)\<rceil> 16"

definition overview_rows :: "nat \<Rightarrow> int \<Rightarrow> error + int" where
  "overview_rows n cols =
     (case py_truediv (int n) cols of Inl e \<Rightarrow> Inl e | Inr q \<Rightarrow> Inr \<lceil>q\<rceil>)"

definition cell_origin :: "int \<Rightarrow> int \<Rightarrow> nat \<Rightarrow> int \<times> int" where
  "cell_origin cols cell idx =
     (let col = int idx mod cols;
          row = int idx div cols;
          x = GRID_PADDING + col * cell;
          y = GRID_PADDING + row * cell
      in (x, y))"

definition overview_step ::
  "renderer \<Rightarrow> int \<Rightarrow> int \<Rightarrow> int \<Rightarrow> nat \<times> string \<Rightarrow> pil_image \<times> event list
     \<Rightarrow> pil_image \<times> event list" where
  "overview_step r sz cols cell item st =
     (case item of (idx, name) \<Rightarrow>
      case st of (overview, evs) \<Rightarrow>
        (let (x, y) = cell_origin cols cell idx;
             evs1 = evs @ [Render_item name sz False]
         in case render_item r name sz False of
              None \<Rightarrow> (overview, evs1)
            | Some item_img \<Rightarrow>
                (let item_img1 =
                       (if im_size item_img \<noteq> (sz, sz) then resize item_img (sz, sz) LANCZOS
                        else item_img);
                     overview1 = paste overview item_img1 (x, y);
                     overview2 = draw_on overview1 (Text (x + 2, y + 2) name LABEL_COLOR)
                 in (overview2, evs1))))"

definition render_overview :: "renderer \<Rightarrow> int \<Rightarrow> bool \<Rightarrow> error + event list" where
  "render_overview r sz overlays =
     (let items = get_items r
      in if items = [] then Inr [Print ''  No items to render in overview'']
         else
           (let n = length items;
                cols = overview_cols n
            in case overview_rows n cols of
                 Inl e \<Rightarrow> Inl e
               | Inr rows \<Rightarrow>
                   (let cell = sz + GRID_PADDING;
                        img_w = cols * cell + GRID_PADDING;
                        img_h = rows * cell + GRID_PADDING;
                        overview0 = Image_new ''RGB'' (img_w, img_h) GRID_BG;
                        (overview, evs) =
                          fold (overview_step r sz cols cell) (enumerate 0 items) (overview0, []);
                        path = os_path_join (output_dir r) OVERVIEW_FILENAME
                    in Inr (evs @
                         [Makedirs (output_dir r),
                          Save path overview,
                          Print (''  Overview -> '' @ path @ '' ('' @ str_int (fst (im_size overview))
                                 @ ''x'' @ str_int (snd (im_size overview)) @ ''px)'')]))))"

text \<open>\<open>run\<close>: the result is the returned truth value with the events of the run, or the
  error that escapes.\<close>

definition run ::
  "renderer \<Rightarrow> string list option \<Rightarrow> int \<Rightarrow> bool \<Rightarrow> bool \<Rightarrow> bool \<Rightarrow> error + (bool \<times> event list)"
  where
  "run r items sz overlays overview_only no_overview =
     (let evs0 = [Print ''Loading artifact...'']
      in if \<not> load_artifact r then Inr (False, evs0 @ [Print ''Error: Failed to load artifact''])
         else if overview_only then
           (case render_overview r GRID_CELL_SIZE overlays of
              Inl e \<Rightarrow> Inl e
            | Inr evs1 \<Rightarrow>
                Inr (True, evs0 @ [Print ''Rendering overview...''] @ evs1 @ [Print ''Done.'']))
         else
           (let target_items =
                  (case items of None \<Rightarrow> get_items r
                   | Some xs \<Rightarrow> if xs \<noteq> [] then xs else get_items r);
                evs1 = evs0 @
                  [Print (''Rendering '' @ str_int (int (length target_items)) @ '' item(s) at ''
                          @ str_int sz @ ''px...'')]
                  @ render_items r target_items sz overlays
            in if \<not> no_overview then
                 (case render_overview r GRID_CELL_SIZE overlays of
                    Inl e \<Rightarrow> Inl e
                  | Inr evs2 \<Rightarrow>
                      Inr (True, evs1 @ [Print ''Rendering overview...''] @ evs2 @ [Print ''Done.'']))
               else Inr (True, evs1 @ [Print ''Done.''])))"

definition run_events :: "error + (bool \<times> event list) \<Rightarrow> event list" where
  "run_events res = (case res of Inl e \<Rightarrow> [] | Inr (b, evs) \<Rightarrow> evs)"

subsection \<open>The example renderer\<close>

definition EXAMPLE_ITEMS :: "string list" where
  "EXAMPLE_ITEMS = [''button'', ''header'', ''card'', ''input'', ''modal'',
                    ''sidebar'', ''footer'', ''nav'', ''badge'', ''tooltip'']"

definition EXAMPLE_COLORS :: "color list" where
  "EXAMPLE_COLORS = [RGB 180 60 60, RGB 60 140 180, RGB 60 160 80, RGB 180 140 60,
                     RGB 140 80 180, RGB 180 100 60, RGB 80 80 160, RGB 160 60 120,
                     RGB 60 160 160, RGB 140 140 60]"

definition Example_render_item :: "string \<Rightarrow> int \<Rightarrow> bool \<Rightarrow> pil_image option" where
  "Example_render_item item_name sz overlays =
     (let img = Image_new ''RGB'' (sz, sz) BG_COLOR;
          idx = (if item_name \<in> set EXAMPLE_ITEMS then list_index EXAMPLE_ITEMS item_name else 0);
          c = EXAMPLE_COLORS ! (idx mod length EXAMPLE_COLORS);
          margin = sz div 6;
          draw1 = draw_on img
                    (Rounded_rectangle [margin, margin, sz - margin, sz - margin] (sz div 12)
                       c FG_COLOR 2);
          draw2 = draw_on draw1 (Text (margin + 8, margin + 8) item_name FG_COLOR)
      in if overlays then
           (let center = sz div 2;
                draw3 = draw_horizontal_line draw2 center sz (OVERLAY_COLORS baseline)
                          (Some ''center'');
                draw4 = draw_vertical_line draw3 center sz (OVERLAY_COLORS tertiary)
                          (Some ''center'');
                draw5 = draw_bounding_box draw4 margin margin (sz - 2 * margin) (sz - 2 * margin)
                          (OVERLAY_COLORS primary) (Some ''bounds'')
            in Some draw5)
         else Some draw2)"

definition ExampleRenderer :: renderer where
  "ExampleRenderer =
     \<lparr>output_dir = OUTPUT_DIR, load_artifact = True,
      render_item = Example_render_item, get_items = EXAMPLE_ITEMS\<rparr>"

text \<open>The example renderer with three items, of which \<open>card\<close> cannot be rendered:
  a concrete renderer whose \<open>render_item\<close> returns \<open>None\<close> for one item.\<close>

definition Example_without_card :: renderer where
  "Example_without_card =
     ExampleRenderer
       \<lparr>render_item :=
          (\<lambda>item_name sz overlays.
             if item_name = ''card'' then None else Example_render_item item_name sz overlays),
        get_items := [''button'', ''card'', ''nav'']\<rparr>"

section \<open>Auxiliary facts\<close>

subsection \<open>Grid arithmetic\<close>

text \<open>The ceiling of a square root is decided by two comparisons of squares; the
  column count is positive, so the division for the row count is defined.\<close>

lemma rows_cover:
  assumes "0 < (c::int)"
  shows "int n \<le> \<lceil>real n / real_of_int c\<rceil> * c"
proof -
  have c: "0 < real_of_int c" using assms by simp
  have "real n / real_of_int c \<le> real_of_int \<lceil>real n / real_of_int c\<rceil>"
    by (rule le_of_int_ceiling)
  then have "real n \<le> real_of_int \<lceil>real n / real_of_int c\<rceil> * real_of_int c"
    by (simp only: pos_divide_le_eq [OF c])
  then have "real_of_int (int n) \<le> real_of_int (\<lceil>real n / real_of_int c\<rceil> * c)"
    by simp
  then show ?thesis by (simp only: of_int_le_iff)
qed

lemma ceiling_sqrt_eq:
  assumes "0 < k" "(real_of_int k - 1)\<^sup>2 < x" "x \<le> (real_of_int k)\<^sup>2"
  shows "\<lceil>sqrt x\<rceil> = k"
proof -
  have "real_of_int k - 1 < sqrt x"
    using assms by (intro real_less_rsqrt) auto
  moreover have "sqrt x \<le> real_of_int k"
    using assms by (intro real_le_lsqrt) auto
  ultimately show ?thesis by (simp add: ceiling_eq_iff)
qed

lemma overview_cols_pos: "1 \<le> n \<Longrightarrow> 1 \<le> overview_cols n"
proof -
  assume "1 \<le> n"
  then have "0 < sqrt (real n * 1.5)" by simp
  then have "0 < \<lceil>sqrt (real n * 1.5)\<rceil>" by (simp only: zero_less_ceiling)
  then show ?thesis by (simp add: overview_cols_def)
qed

lemma overview_cols_le: "overview_cols n \<le> 16"
  by (simp add: overview_cols_def)

lemma overview_rows_eq:
  "cols \<noteq> 0 \<Longrightarrow> overview_rows n cols = Inr \<lceil>real n / real_of_int cols\<rceil>"
  by (simp add: overview_rows_def py_truediv_def)

lemma overview_cols_1: "overview_cols 1 = 2"
  unfolding overview_cols_def
  by (subst ceiling_sqrt_eq[where k=2]) (simp_all add: power2_eq_square)

lemma overview_cols_3: "overview_cols 3 = 3"
  unfolding overview_cols_def
  by (subst ceiling_sqrt_eq[where k=3]) (simp_all add: power2_eq_square)

lemma overview_cols_10: "overview_cols 10 = 4"
  unfolding overview_cols_def
  by (subst ceiling_sqrt_eq[where k=4]) (simp_all add: power2_eq_square)

lemma cell_origin_eq:
  "cell_origin cols cell idx =
     (GRID_PADDING + (int idx mod cols) * cell, GRID_PADDING + (int idx div cols) * cell)"
  by (simp add: cell_origin_def Let_def)

lemma grid_cell_inj:
  assumes "int i mod cols = int j mod cols" "int i div cols = int j div cols"
  shows "i = j"
proof -
  have "int i = int i div cols * cols + int i mod cols" by simp
  also have "\<dots> = int j div cols * cols + int j mod cols" using assms by simp
  also have "\<dots> = int j" by simp
  finally show ?thesis by simp
qed

lemma cell_origin_inj:
  assumes "cell \<noteq> 0" "cell_origin cols cell i = cell_origin cols cell j"
  shows "i = j"
  using assms by (auto simp: cell_origin_eq intro: grid_cell_inj)

subsection \<open>The single-item loop\<close>

text \<open>The events of the loop on a list are those of its parts, in order.\<close>

lemma render_items_loop_append:
  "render_items_loop r (xs @ ys) sz ov = render_items_loop r xs sz ov @ render_items_loop r ys sz ov"
  by (induction xs) simp_all

lemma render_items_loop_saves:
  "name \<in> set names \<Longrightarrow> render_item r name sz ov = Some img \<Longrightarrow>
   Save (os_path_join (output_dir r) (safe_name name @ ''.png'')) img \<in> set (render_items_loop r names sz ov)"
  by (induction names) (auto simp: Let_def split: option.splits)

lemma render_items_loop_skip:
  assumes "render_item r X sz overlays = None"
  shows "render_items_loop r (pre @ X # post) sz overlays =
     render_items_loop r pre sz overlays @
     [Render_item X sz overlays,
      Print (''  Warning: render_item returned None for '' @ [CHR 0x27] @ X @ [CHR 0x27] @ '', skipping'')]
     @ render_items_loop r post sz overlays"
  using assms by (simp add: render_items_loop_append)

lemma safe_name_map:
  "safe_name name = map (\<lambda>c. if c = CHR ''/'' \<or> c = CHR 0x5C then CHR ''_'' else c) name"
  by (simp add: safe_name_def str_replace_def)

lemma safe_name_clean: "CHR ''/'' \<notin> set (safe_name name) \<and> CHR 0x5C \<notin> set (safe_name name)"
  by (auto simp add: safe_name_map)

lemma render_items_loop_concat:
  "render_items_loop r names sz overlays =
     concat (map (\<lambda>name.
        Render_item name sz overlays #
        (case render_item r name sz overlays of
           None \<Rightarrow>
             [Print (''  Warning: render_item returned None for '' @ [CHR 0x27] @ name
                     @ [CHR 0x27] @ '', skipping'')]
         | Some img \<Rightarrow>
             [Save (os_path_join (output_dir r) (safe_name name @ ''.png'')) img,
              Print (''  '' @ name @ '' -> ''
                     @ os_path_join (output_dir r) (safe_name name @ ''.png''))])) names)"
  by (induction names) (simp_all add: Let_def split: option.splits)

lemma render_items_loop_calls:
  "name \<in> set names \<Longrightarrow> Render_item name sz overlays \<in> set (render_items_loop r names sz overlays)"
  by (induction names) auto

subsection \<open>The overview loop\<close>

text \<open>The loop only appends to the canvas: its size stays, and what one iteration
  pastes is still there at the end. \<open>overview_fold_result\<close> gives the canvas and the events
  after the loop in closed form.\<close>

lemma overview_step_size:
  "im_size (fst (overview_step r sz cols cell item st)) = im_size (fst st)"
  by (auto simp: overview_step_def paste_def draw_on_def Let_def split: prod.splits option.splits)

lemma overview_fold_size:
  "im_size (fst (fold (overview_step r sz cols cell) xs st)) = im_size (fst st)"
  by (induction xs arbitrary: st) (simp_all add: overview_step_size)

lemma overview_step_ops_mono:
  "set (im_ops (fst st)) \<subseteq> set (im_ops (fst (overview_step r sz cols cell item st)))"
  by (auto simp: overview_step_def paste_def draw_on_def Let_def split: prod.splits option.splits)

lemma overview_fold_ops_mono:
  "set (im_ops (fst st)) \<subseteq> set (im_ops (fst (fold (overview_step r sz cols cell) xs st)))"
proof (induction xs arbitrary: st)
  case Nil
  show ?case by simp
next
  case (Cons x xs)
  have "set (im_ops (fst st)) \<subseteq> set (im_ops (fst (overview_step r sz cols cell x st)))"
    by (rule overview_step_ops_mono)
  also have "\<dots> \<subseteq> set (im_ops (fst (fold (overview_step r sz cols cell) xs (overview_step r sz cols cell x st))))"
    by (rule Cons.IH)
  finally show ?case by simp
qed

lemma overview_step_pastes:
  assumes "render_item r name sz False = Some img"
  shows "Paste (if im_size img \<noteq> (sz, sz) then resize img (sz, sz) LANCZOS else img) (cell_origin cols cell idx)
           \<in> set (im_ops (fst (overview_step r sz cols cell (idx, name) st)))"
    and "Text (fst (cell_origin cols cell idx) + 2, snd (cell_origin cols cell idx) + 2) name LABEL_COLOR
           \<in> set (im_ops (fst (overview_step r sz cols cell (idx, name) st)))"
  using assms
  by (auto simp: overview_step_def paste_def draw_on_def Let_def split: prod.splits)

lemma overview_fold_pastes:
  assumes "(idx, name) \<in> set xs" "render_item r name sz False = Some img"
  shows "Paste (if im_size img \<noteq> (sz, sz) then resize img (sz, sz) LANCZOS else img) (cell_origin cols cell idx)
           \<in> set (im_ops (fst (fold (overview_step r sz cols cell) xs st)))
       \<and> Text (fst (cell_origin cols cell idx) + 2, snd (cell_origin cols cell idx) + 2) name LABEL_COLOR
           \<in> set (im_ops (fst (fold (overview_step r sz cols cell) xs st)))"
  using assms(1)
proof (induction xs arbitrary: st)
  case Nil
  then show ?case by simp
next
  case (Cons x xs)
  show ?case
  proof (cases "x = (idx, name)")
    case True
    have "set (im_ops (fst (overview_step r sz cols cell x st)))
            \<subseteq> set (im_ops (fst (fold (overview_step r sz cols cell) (x # xs) st)))"
      using overview_fold_ops_mono [of "overview_step r sz cols cell x st" r sz cols cell xs] by simp
    then show ?thesis
      using overview_step_pastes [OF assms(2), of cols cell idx st] True by blast
  next
    case False
    then have "(idx, name) \<in> set xs" using Cons.prems by simp
    then show ?thesis using Cons.IH by simp
  qed
qed

lemma overview_step_None:
  "render_item r name sz False = None \<Longrightarrow>
   overview_step r sz cols cell (idx, name) (ov, evs) = (ov, evs @ [Render_item name sz False])"
  by (simp add: overview_step_def Let_def split: prod.splits)

lemma overview_fold_result:
  "fold (overview_step r sz cols cell) xs (ov, evs) =
     (Image (im_size ov) (im_base ov)
        (im_ops ov @ concat (map (\<lambda>p. case render_item r (snd p) sz False of
             None \<Rightarrow> []
           | Some img \<Rightarrow>
               [Paste (if im_size img \<noteq> (sz, sz) then resize img (sz, sz) LANCZOS else img)
                  (cell_origin cols cell (fst p)),
                Text (fst (cell_origin cols cell (fst p)) + 2, snd (cell_origin cols cell (fst p)) + 2)
                  (snd p) LABEL_COLOR]) xs)),
      evs @ map (\<lambda>p. Render_item (snd p) sz False) xs)"
proof (induction xs arbitrary: ov evs)
  case Nil
  show ?case by simp
next
  case (Cons x xs)
  obtain idx name where x: "x = (idx, name)" by (cases x)
  show ?case
  proof (cases "render_item r name sz False")
    case None
    then have "overview_step r sz cols cell x (ov, evs) = (ov, evs @ [Render_item name sz False])"
      by (simp add: x overview_step_None)
    then show ?thesis by (simp add: Cons.IH x None)
  next
    case (Some img)
    have "overview_step r sz cols cell x (ov, evs) =
        (draw_on (paste ov (if im_size img \<noteq> (sz, sz) then resize img (sz, sz) LANCZOS else img)
                    (cell_origin cols cell idx))
           (Text (fst (cell_origin cols cell idx) + 2, snd (cell_origin cols cell idx) + 2) name LABEL_COLOR),
         evs @ [Render_item name sz False])"
      by (simp add: x overview_step_def Let_def Some split: prod.splits)
    then show ?thesis by (simp add: Cons.IH x Some paste_def draw_on_def)
  qed
qed

lemma overview_fold_paste_source:
  assumes "Paste img pos \<in> set (im_ops (fst (fold (overview_step r sz cols cell) xs (ov, evs))))"
    and "im_ops ov = []"
  shows "\<exists>p \<in> set xs. render_item r (snd p) sz False \<noteq> None \<and> pos = cell_origin cols cell (fst p)"
proof -
  from assms obtain p img0 where "p \<in> set xs" "render_item r (snd p) sz False = Some img0"
    "pos = cell_origin cols cell (fst p)"
    by (auto simp: overview_fold_result split: option.splits) metis
  then show ?thesis by (intro bexI [of _ p]) simp_all
qed

lemma overview_fold_text_source:
  assumes "Text pos s c \<in> set (im_ops (fst (fold (overview_step r sz cols cell) xs (ov, evs))))"
    and "im_ops ov = []"
  shows "\<exists>p \<in> set xs. render_item r (snd p) sz False \<noteq> None
           \<and> pos = (fst (cell_origin cols cell (fst p)) + 2, snd (cell_origin cols cell (fst p)) + 2)"
proof -
  from assms obtain p img0 where "p \<in> set xs" "render_item r (snd p) sz False = Some img0"
    "pos = (fst (cell_origin cols cell (fst p)) + 2, snd (cell_origin cols cell (fst p)) + 2)"
    by (auto simp: overview_fold_result split: option.splits) metis
  then show ?thesis by (intro bexI [of _ p]) simp_all
qed

lemma map_call_enumerate:
  "map (\<lambda>p. Render_item (snd p) sz b) (enumerate k xs) = map (\<lambda>name. Render_item name sz b) xs"
  by (induction xs arbitrary: k) simp_all

lemma render_overview_result:
  assumes "get_items r \<noteq> []"
  shows "render_overview r sz overlays =
     Inr (map (\<lambda>name. Render_item name sz False) (get_items r) @
       [Makedirs (output_dir r),
        Save (os_path_join (output_dir r) OVERVIEW_FILENAME)
          (fst (fold (overview_step r sz (overview_cols (length (get_items r))) (sz + GRID_PADDING))
             (enumerate 0 (get_items r))
             (Image_new ''RGB''
                (overview_cols (length (get_items r)) * (sz + GRID_PADDING) + GRID_PADDING,
                 \<lceil>real (length (get_items r)) / real_of_int (overview_cols (length (get_items r)))\<rceil>
                   * (sz + GRID_PADDING) + GRID_PADDING) GRID_BG, []))),
        Print (''  Overview -> '' @ os_path_join (output_dir r) OVERVIEW_FILENAME @ '' (''
               @ str_int (overview_cols (length (get_items r)) * (sz + GRID_PADDING) + GRID_PADDING)
               @ ''x''
               @ str_int (\<lceil>real (length (get_items r)) / real_of_int (overview_cols (length (get_items r)))\<rceil>
                   * (sz + GRID_PADDING) + GRID_PADDING)
               @ ''px)'')])"
proof -
  define n where "n = length (get_items r)"
  define cols where "cols = overview_cols n"
  have n: "1 \<le> n" using assms by (cases "get_items r") (simp_all add: n_def)
  have "1 \<le> cols" unfolding cols_def by (rule overview_cols_pos [OF n])
  then have rows: "overview_rows n cols = Inr \<lceil>real n / real_of_int cols\<rceil>"
    by (intro overview_rows_eq) simp
  show ?thesis
    using assms rows
    unfolding render_overview_def Let_def n_def [symmetric] cols_def [symmetric]
    by (simp add: overview_fold_result overview_fold_size Image_new_def map_call_enumerate
          split: prod.splits)
qed

lemma render_overview_total: "\<exists>evs. render_overview r sz overlays = Inr evs"
proof (cases "get_items r = []")
  case True
  then show ?thesis by (simp add: render_overview_def)
next
  case False
  then show ?thesis using render_overview_result [OF False] by blast
qed

subsection \<open>Ranges and the reference grid\<close>

text \<open>The three cases of \<open>range(0, stop, step)\<close> that matter for a degenerate grid.\<close>

lemma py_range_zero_step: "py_range start stop 0 = Inl ValueError"
  by (simp add: py_range_def)

lemma py_range_negative_step:
  assumes "step < 0" "0 \<le> stop"
  shows "py_range 0 stop step = Inr []"
proof -
  have "\<not> (- step \<le> 0 - stop - step - 1)" using assms by simp
  then have "\<not> 0 < (0 - stop - step - 1) div (- step)"
    using assms pos_imp_zdiv_pos_iff [of "- step" "0 - stop - step - 1"] by simp
  then show ?thesis using assms by (simp add: py_range_def)
qed

lemma py_range_wide_step:
  assumes "0 < step" "stop \<le> step"
  shows "py_range 0 stop step = Inr (if 0 < stop then [0] else [])"
proof (cases "0 < stop")
  case True
  have "stop - 0 + step - 1 = step * 1 + (stop - 1)" by simp
  moreover have "0 \<le> stop - 1" "stop - 1 < step" using True assms by simp_all
  ultimately have "(stop - 0 + step - 1) div step = 1"
    by (rule int_div_pos_eq)
  then show ?thesis using True assms by (simp add: py_range_def)
next
  case False
  then have "\<not> (step \<le> stop - 0 + step - 1)" by simp
  then have "\<not> 0 < (stop - 0 + step - 1) div step"
    using assms pos_imp_zdiv_pos_iff [of step "stop - 0 + step - 1"] by simp
  then show ?thesis using False assms by (simp add: py_range_def)
qed

lemma py_range_total: "step \<noteq> 0 \<Longrightarrow> \<exists>xs. py_range start stop step = Inr xs"
  by (simp add: py_range_def)

lemma fold_draw_on:
  "fold (\<lambda>x d. draw_on d (f x)) xs d = Image (im_size d) (im_base d) (im_ops d @ map f xs)"
  by (induction xs arbitrary: d) (simp_all add: draw_on_def)

lemma draw_grid_lines:
  assumes "py_range 0 width spacing = Inr xs" "py_range 0 height spacing = Inr ys"
  shows "draw_grid draw width height spacing c =
     Inr (Image (im_size draw) (im_base draw)
            (im_ops draw @ map (\<lambda>x. Line [(x, 0), (x, height)] c 1) xs
                         @ map (\<lambda>y. Line [(0, y), (width, y)] c 1) ys))"
  using assms by (simp add: draw_grid_def fold_draw_on)

subsection \<open>The run\<close>

text \<open>The three paths of \<open>run\<close>, given what \<open>render_overview\<close> returns.\<close>

lemma run_load_failed:
  "\<not> load_artifact r \<Longrightarrow>
   run r items sz overlays overview_only no_overview =
     Inr (False, [Print ''Loading artifact...'', Print ''Error: Failed to load artifact''])"
  by (simp add: run_def)

lemma run_overview_only:
  assumes "load_artifact r" "render_overview r GRID_CELL_SIZE overlays = Inr evs"
  shows "run r items sz overlays True no_overview =
     Inr (True, [Print ''Loading artifact...'', Print ''Rendering overview...''] @ evs @ [Print ''Done.''])"
  using assms by (simp add: run_def)

lemma run_items:
  assumes "load_artifact r" "render_overview r GRID_CELL_SIZE overlays = Inr evs"
  shows "run r items sz overlays False no_overview =
     Inr (True,
       [Print ''Loading artifact...'',
        Print (''Rendering ''
               @ str_int (int (length (case items of None \<Rightarrow> get_items r
                                       | Some xs \<Rightarrow> if xs \<noteq> [] then xs else get_items r)))
               @ '' item(s) at '' @ str_int sz @ ''px...'')]
       @ render_items r (case items of None \<Rightarrow> get_items r
                         | Some xs \<Rightarrow> if xs \<noteq> [] then xs else get_items r) sz overlays
       @ (if \<not> no_overview then [Print ''Rendering overview...''] @ evs @ [Print ''Done.'']
          else [Print ''Done.'']))"
  using assms by (simp add: run_def Let_def)

lemma run_returns_load_artifact:
  "\<exists>evs. run r items sz overlays overview_only no_overview = Inr (load_artifact r, evs)"
proof -
  obtain evs where evs: "render_overview r GRID_CELL_SIZE overlays = Inr evs"
    using render_overview_total by blast
  show ?thesis
  proof (cases "load_artifact r")
    case False
    then show ?thesis by (simp add: run_load_failed)
  next
    case True
    show ?thesis
    proof (cases overview_only)
      case True
      with \<open>load_artifact r\<close> show ?thesis using run_overview_only [OF _ evs] by simp
    next
      case False
      with \<open>load_artifact r\<close> show ?thesis using run_items [OF _ evs] by simp
    qed
  qed
qed

section \<open>Claims\<close>

text \<open>
  C1. For every item count \<open>n \<ge> 1\<close> the column count of the overview grid is
  \<open>min(ceil(sqrt(n * 1.5)), 16)\<close>, it lies between 1 and 16, the division that gives
  the row count does not fail, the row count is \<open>ceil(n / cols)\<close>, and
  \<open>rows * cols \<ge> n\<close>.
\<close>

theorem C1_grid_geometry:
  "1 \<le> n \<Longrightarrow>
     overview_cols n = min \<lceil>sqrt (real n * 1.5)\<rceil> 16
   \<and> 1 \<le> overview_cols n \<and> overview_cols n \<le> 16
   \<and> overview_rows n (overview_cols n) = Inr \<lceil>real n / real_of_int (overview_cols n)\<rceil>
   \<and> int n \<le> \<lceil>real n / real_of_int (overview_cols n)\<rceil> * overview_cols n"
proof -
  assume n: "1 \<le> n"
  have pos: "1 \<le> overview_cols n" by (rule overview_cols_pos [OF n])
  have "overview_cols n = min \<lceil>sqrt (real n * 1.5)\<rceil> 16" by (rule overview_cols_def)
  moreover have "overview_cols n \<le> 16" by (rule overview_cols_le)
  moreover have "overview_rows n (overview_cols n) = Inr \<lceil>real n / real_of_int (overview_cols n)\<rceil>"
    using pos by (intro overview_rows_eq) simp
  moreover have "int n \<le> \<lceil>real n / real_of_int (overview_cols n)\<rceil> * overview_cols n"
    using pos by (intro rows_cover) simp
  ultimately show ?thesis using pos by blast
qed

text \<open>The ten-item grid: four columns and three rows.\<close>

theorem C1_grid_geometry_witness:
  "(1::nat) \<le> 10 \<and> overview_cols 10 = 4 \<and> overview_rows 10 (overview_cols 10) = Inr 3
   \<and> (10::int) \<le> 3 * overview_cols 10"
proof -
  have c: "overview_cols 10 = 4" by (rule overview_cols_10)
  have r: "\<lceil>real 10 / real_of_int 4\<rceil> = 3" by (simp add: ceiling_eq_iff)
  show ?thesis using C1_grid_geometry [of 10] by (simp add: c r)
qed


text \<open>
  C2. For every non-empty item list, \<open>render_overview\<close> saves one overview image; its
  width is \<open>cols * (cell_size + padding) + padding\<close> and its height
  \<open>rows * (cell_size + padding) + padding\<close>. With ten items and the configured cell
  size 120 and padding 8 it is 520 by 392 pixels.
\<close>

theorem C2_overview_canvas_size:
  "get_items r \<noteq> [] \<Longrightarrow>
     (\<exists>overview msg.
        render_overview r sz overlays =
          Inr (map (\<lambda>name. Render_item name sz False) (get_items r) @
               [Makedirs (output_dir r),
                Save (os_path_join (output_dir r) OVERVIEW_FILENAME) overview,
                Print msg])
      \<and> im_size overview =
          (overview_cols (length (get_items r)) * (sz + GRID_PADDING) + GRID_PADDING,
           \<lceil>real (length (get_items r)) / real_of_int (overview_cols (length (get_items r)))\<rceil>
             * (sz + GRID_PADDING) + GRID_PADDING)
      \<and> (length (get_items r) = 10 \<and> sz = 120 \<longrightarrow> im_size overview = (520, 392)))"
proof -
  let ?n = "length (get_items r)"
  let ?cols = "overview_cols ?n"
  let ?w = "?cols * (sz + GRID_PADDING) + GRID_PADDING"
  let ?h = "\<lceil>real ?n / real_of_int ?cols\<rceil> * (sz + GRID_PADDING) + GRID_PADDING"
  let ?ov = "fst (fold (overview_step r sz ?cols (sz + GRID_PADDING)) (enumerate 0 (get_items r))
                 (Image_new ''RGB'' (?w, ?h) GRID_BG, []))"
  assume ne: "get_items r \<noteq> []"
  have size: "im_size ?ov = (?w, ?h)"
    by (simp add: overview_fold_size Image_new_def)
  have ten: "im_size ?ov = (520, 392)" if "?n = 10" "sz = 120"
  proof -
    have "\<lceil>real 10 / real_of_int 4\<rceil> = (3::int)" by (simp add: ceiling_eq_iff)
    then show ?thesis
      using that by (simp add: overview_fold_size Image_new_def overview_cols_10 GRID_PADDING_def)
  qed
  show ?thesis
    using render_overview_result [OF ne, of sz overlays] size ten by blast
qed

text \<open>The example renderer has ten items; its overview at cell size 120 is 520 by 392.\<close>

theorem C2_overview_canvas_size_witness:
  "get_items ExampleRenderer \<noteq> [] \<and> length (get_items ExampleRenderer) = 10
   \<and> (\<exists>overview msg.
        render_overview ExampleRenderer 120 True =
          Inr (map (\<lambda>name. Render_item name 120 False) EXAMPLE_ITEMS @
               [Makedirs ''build/previews'', Save ''build/previews/overview.png'' overview, Print msg])
      \<and> im_size overview = (520, 392))"
proof -
  have items: "get_items ExampleRenderer = EXAMPLE_ITEMS" by (simp add: ExampleRenderer_def)
  have ne: "get_items ExampleRenderer \<noteq> []" by (simp add: items EXAMPLE_ITEMS_def)
  have len: "length (get_items ExampleRenderer) = 10" by (simp add: items EXAMPLE_ITEMS_def)
  have dir: "output_dir ExampleRenderer = ''build/previews''"
    by (simp add: ExampleRenderer_def OUTPUT_DIR_def)
  have path: "os_path_join ''build/previews'' OVERVIEW_FILENAME = ''build/previews/overview.png''"
    by (simp add: os_path_join_def OVERVIEW_FILENAME_def)
  show ?thesis
    using C2_overview_canvas_size [OF ne, of 120 True] ne len
    unfolding items dir path by auto
qed

text \<open>
  C3. In the overview of a non-empty item list, the item at index \<open>idx\<close> is pasted, and
  its label drawn, at the cell in column \<open>idx mod cols\<close> and row \<open>idx div cols\<close>, whose
  top-left origin is \<open>(padding + col * (cell_size + padding),
  padding + row * (cell_size + padding))\<close>. Distinct indices have distinct cells, and
  distinct origins unless \<open>cell_size + padding\<close> is zero.
\<close>

theorem C3_overview_placement:
  "get_items r \<noteq> [] \<Longrightarrow>
     (\<exists>overview msg.
        render_overview r sz overlays =
          Inr (map (\<lambda>name. Render_item name sz False) (get_items r) @
               [Makedirs (output_dir r),
                Save (os_path_join (output_dir r) OVERVIEW_FILENAME) overview,
                Print msg])
      \<and> (\<forall>idx img.
            idx < length (get_items r) \<and> render_item r (get_items r ! idx) sz False = Some img \<longrightarrow>
              Paste (if im_size img \<noteq> (sz, sz) then resize img (sz, sz) LANCZOS else img)
                (GRID_PADDING + (int idx mod overview_cols (length (get_items r))) * (sz + GRID_PADDING),
                 GRID_PADDING + (int idx div overview_cols (length (get_items r))) * (sz + GRID_PADDING))
                \<in> set (im_ops overview)
            \<and> Text
                (GRID_PADDING + (int idx mod overview_cols (length (get_items r))) * (sz + GRID_PADDING) + 2,
                 GRID_PADDING + (int idx div overview_cols (length (get_items r))) * (sz + GRID_PADDING) + 2)
                (get_items r ! idx) LABEL_COLOR
                \<in> set (im_ops overview)))
   \<and> (\<forall>i j. int i mod overview_cols (length (get_items r)) = int j mod overview_cols (length (get_items r))
           \<and> int i div overview_cols (length (get_items r)) = int j div overview_cols (length (get_items r))
           \<longrightarrow> i = j)
   \<and> (\<forall>i j. sz + GRID_PADDING \<noteq> 0
           \<and> cell_origin (overview_cols (length (get_items r))) (sz + GRID_PADDING) i
             = cell_origin (overview_cols (length (get_items r))) (sz + GRID_PADDING) j
           \<longrightarrow> i = j)"
proof -
  let ?items = "get_items r"
  let ?cols = "overview_cols (length ?items)"
  let ?cell = "sz + GRID_PADDING"
  let ?blank = "Image_new ''RGB''
                (?cols * ?cell + GRID_PADDING,
                 \<lceil>real (length ?items) / real_of_int ?cols\<rceil> * ?cell + GRID_PADDING) GRID_BG"
  let ?ov = "fst (fold (overview_step r sz ?cols ?cell) (enumerate 0 ?items) (?blank, []))"
  assume ne: "?items \<noteq> []"
  have placed:
    "Paste (if im_size img \<noteq> (sz, sz) then resize img (sz, sz) LANCZOS else img)
        (GRID_PADDING + (int idx mod ?cols) * ?cell, GRID_PADDING + (int idx div ?cols) * ?cell)
        \<in> set (im_ops ?ov)
     \<and> Text (GRID_PADDING + (int idx mod ?cols) * ?cell + 2,
              GRID_PADDING + (int idx div ?cols) * ?cell + 2) (?items ! idx) LABEL_COLOR
        \<in> set (im_ops ?ov)"
    if "idx < length ?items \<and> render_item r (?items ! idx) sz False = Some img" for idx img
  proof -
    from that have "(idx, ?items ! idx) \<in> set (enumerate 0 ?items)"
      by (simp add: in_set_enumerate_eq)
    moreover from that have "render_item r (?items ! idx) sz False = Some img" by simp
    ultimately show ?thesis
      using overview_fold_pastes [where r = r and sz = sz and img = img and cols = ?cols
          and cell = ?cell and st = "(?blank, [])" and xs = "enumerate 0 ?items"
          and idx = idx and name = "?items ! idx"]
      by (simp add: cell_origin_eq)
  qed
  have cells: "i = j"
    if "int i mod ?cols = int j mod ?cols \<and> int i div ?cols = int j div ?cols" for i j
    using that grid_cell_inj by blast
  have origins: "i = j"
    if "?cell \<noteq> 0 \<and> cell_origin ?cols ?cell i = cell_origin ?cols ?cell j" for i j
    using that cell_origin_inj by blast
  show ?thesis
    using render_overview_result [OF ne, of sz overlays] placed cells origins by blast
qed

text \<open>A single item: two columns, the item in column 0 and row 0, at origin (8, 8).\<close>

theorem C3_overview_placement_witness:
  "get_items (ExampleRenderer\<lparr>get_items := [''button'']\<rparr>) \<noteq> []
   \<and> overview_cols (length (get_items (ExampleRenderer\<lparr>get_items := [''button'']\<rparr>))) = 2
   \<and> (\<exists>overview msg.
        render_overview (ExampleRenderer\<lparr>get_items := [''button'']\<rparr>) 120 True =
          Inr ([Render_item ''button'' 120 False,
                Makedirs ''build/previews'',
                Save ''build/previews/overview.png'' overview,
                Print msg])
      \<and> Paste (Image (120, 120) (Blank ''RGB'' BG_COLOR)
                  [Rounded_rectangle [20, 20, 100, 100] 10 (RGB 180 60 60) FG_COLOR 2,
                   Text (28, 28) ''button'' FG_COLOR]) (8, 8) \<in> set (im_ops overview)
      \<and> Text (10, 10) ''button'' LABEL_COLOR \<in> set (im_ops overview))"
proof -
  let ?r = "ExampleRenderer\<lparr>get_items := [''button'']\<rparr>"
  have items: "get_items ?r = [''button'']" by simp
  have ne: "get_items ?r \<noteq> []" by simp
  have dir: "output_dir ?r = ''build/previews''"
    by (simp add: ExampleRenderer_def OUTPUT_DIR_def)
  have path: "os_path_join ''build/previews'' OVERVIEW_FILENAME = ''build/previews/overview.png''"
    by (simp add: os_path_join_def OVERVIEW_FILENAME_def)
  have img: "render_item ?r ''button'' 120 False =
     Some (Image (120, 120) (Blank ''RGB'' BG_COLOR)
                  [Rounded_rectangle [20, 20, 100, 100] 10 (RGB 180 60 60) FG_COLOR 2,
                   Text (28, 28) ''button'' FG_COLOR])"
    by (simp add: ExampleRenderer_def Example_render_item_def Image_new_def draw_on_def Let_def
          EXAMPLE_ITEMS_def EXAMPLE_COLORS_def)
  from C3_overview_placement [OF ne, of 120 True]
  obtain overview msg where
    res: "render_overview ?r 120 True =
          Inr (map (\<lambda>name. Render_item name 120 False) (get_items ?r) @
               [Makedirs (output_dir ?r),
                Save (os_path_join (output_dir ?r) OVERVIEW_FILENAME) overview,
                Print msg])"
    and placed: "\<And>idx img.
            idx < length (get_items ?r) \<and> render_item ?r (get_items ?r ! idx) 120 False = Some img \<Longrightarrow>
              Paste (if im_size img \<noteq> (120, 120) then resize img (120, 120) LANCZOS else img)
                (GRID_PADDING + (int idx mod overview_cols (length (get_items ?r))) * (120 + GRID_PADDING),
                 GRID_PADDING + (int idx div overview_cols (length (get_items ?r))) * (120 + GRID_PADDING))
                \<in> set (im_ops overview)
            \<and> Text
                (GRID_PADDING + (int idx mod overview_cols (length (get_items ?r))) * (120 + GRID_PADDING) + 2,
                 GRID_PADDING + (int idx div overview_cols (length (get_items ?r))) * (120 + GRID_PADDING) + 2)
                (get_items ?r ! idx) LABEL_COLOR
                \<in> set (im_ops overview)"
    by blast
  have "0 < length (get_items ?r) \<and> render_item ?r (get_items ?r ! 0) 120 False = Some (Image (120, 120) (Blank ''RGB'' BG_COLOR)
                  [Rounded_rectangle [20, 20, 100, 100] 10 (RGB 180 60 60) FG_COLOR 2,
                   Text (28, 28) ''button'' FG_COLOR])"
    using img by simp
  from placed [OF this] have
    "Paste (Image (120, 120) (Blank ''RGB'' BG_COLOR)
                  [Rounded_rectangle [20, 20, 100, 100] 10 (RGB 180 60 60) FG_COLOR 2,
                   Text (28, 28) ''button'' FG_COLOR]) (8, 8) \<in> set (im_ops overview)
      \<and> Text (10, 10) ''button'' LABEL_COLOR \<in> set (im_ops overview)"
    by (simp add: overview_cols_1 GRID_PADDING_def)
  moreover have "overview_cols (length (get_items ?r)) = 2" using overview_cols_1 by simp
  ultimately show ?thesis using res ne unfolding items dir path by auto
qed

text \<open>
  C4. When \<open>render_item\<close> returns \<open>None\<close> for an item \<open>X\<close>, the single-item pipeline
  records the call and a warning for \<open>X\<close>, saves nothing for it, and goes on with the
  items after \<open>X\<close> exactly as the loop does on them alone, so each of them that renders
  is saved. In the overview the iteration of \<open>X\<close> leaves the canvas as it was, every item
  is still handed to \<open>render_item\<close>, every later item that renders is pasted in its own
  cell, the overview is saved, and (when \<open>cell_size + padding\<close> is not zero) no image is
  pasted and no label is drawn at the cell of \<open>X\<close>.
\<close>

theorem C4_absent_result_skips_one_item:
  "(render_item r X sz overlays = None \<longrightarrow>
      render_items r (pre @ X # post) sz overlays =
        render_items r pre sz overlays @
        [Render_item X sz overlays,
         Print (''  Warning: render_item returned None for '' @ [CHR 0x27] @ X @ [CHR 0x27]
                @ '', skipping'')]
        @ render_items_loop r post sz overlays
    \<and> (\<forall>Y img. Y \<in> set post \<and> render_item r Y sz overlays = Some img \<longrightarrow>
          Save (os_path_join (output_dir r) (safe_name Y @ ''.png'')) img
            \<in> set (render_items r (pre @ X # post) sz overlays)))
   \<and> (get_items r = pre @ X # post \<and> render_item r X sz False = None \<longrightarrow>
        (\<forall>cols cell idx overview evs.
           overview_step r sz cols cell (idx, X) (overview, evs)
             = (overview, evs @ [Render_item X sz False]))
      \<and> (\<exists>overview msg.
            render_overview r sz overlays =
              Inr (map (\<lambda>name. Render_item name sz False) (pre @ X # post) @
                   [Makedirs (output_dir r),
                    Save (os_path_join (output_dir r) OVERVIEW_FILENAME) overview,
                    Print msg])
          \<and> (\<forall>j img. j < length post \<and> render_item r (post ! j) sz False = Some img \<longrightarrow>
                Paste (if im_size img \<noteq> (sz, sz) then resize img (sz, sz) LANCZOS else img)
                  (cell_origin (overview_cols (length (pre @ X # post))) (sz + GRID_PADDING)
                     (length pre + 1 + j))
                  \<in> set (im_ops overview))
          \<and> (\<forall>img. sz + GRID_PADDING \<noteq> 0 \<longrightarrow>
                Paste img
                  (cell_origin (overview_cols (length (pre @ X # post))) (sz + GRID_PADDING)
                     (length pre))
                  \<notin> set (im_ops overview))
          \<and> (\<forall>s c. sz + GRID_PADDING \<noteq> 0 \<longrightarrow>
                Text
                  (fst (cell_origin (overview_cols (length (pre @ X # post))) (sz + GRID_PADDING)
                          (length pre)) + 2,
                   snd (cell_origin (overview_cols (length (pre @ X # post))) (sz + GRID_PADDING)
                          (length pre)) + 2) s c
                  \<notin> set (im_ops overview))))"
proof (intro conjI impI)
  assume none: "render_item r X sz overlays = None"
  show "render_items r (pre @ X # post) sz overlays =
        render_items r pre sz overlays @
        [Render_item X sz overlays,
         Print (''  Warning: render_item returned None for '' @ [CHR 0x27] @ X @ [CHR 0x27]
                @ '', skipping'')]
        @ render_items_loop r post sz overlays"
    using render_items_loop_skip [OF none, of pre post] by (simp add: render_items_def)
  show "\<forall>Y img. Y \<in> set post \<and> render_item r Y sz overlays = Some img \<longrightarrow>
          Save (os_path_join (output_dir r) (safe_name Y @ ''.png'')) img
            \<in> set (render_items r (pre @ X # post) sz overlays)"
  proof (intro allI impI)
    fix Y img
    assume y: "Y \<in> set post \<and> render_item r Y sz overlays = Some img"
    then have "Y \<in> set (pre @ X # post)" by simp
    from render_items_loop_saves [OF this, of r sz overlays img] y
    show "Save (os_path_join (output_dir r) (safe_name Y @ ''.png'')) img
            \<in> set (render_items r (pre @ X # post) sz overlays)"
      by (simp add: render_items_def)
  qed
next
  assume a: "get_items r = pre @ X # post \<and> render_item r X sz False = None"
  then have items: "get_items r = pre @ X # post" and none: "render_item r X sz False = None"
    by simp_all
  show "\<forall>cols cell idx overview evs.
           overview_step r sz cols cell (idx, X) (overview, evs)
             = (overview, evs @ [Render_item X sz False])"
    by (simp add: overview_step_None [OF none])
  let ?items = "pre @ X # post"
  let ?cols = "overview_cols (length ?items)"
  let ?cell = "sz + GRID_PADDING"
  let ?blank = "Image_new ''RGB''
                (?cols * ?cell + GRID_PADDING,
                 \<lceil>real (length ?items) / real_of_int ?cols\<rceil> * ?cell + GRID_PADDING) GRID_BG"
  let ?res = "fst (fold (overview_step r sz ?cols ?cell) (enumerate 0 ?items) (?blank, []))"
  have ne: "get_items r \<noteq> []" using items by simp
  have later: "Paste (if im_size img \<noteq> (sz, sz) then resize img (sz, sz) LANCZOS else img)
                  (cell_origin ?cols ?cell (length pre + 1 + j)) \<in> set (im_ops ?res)"
    if "j < length post \<and> render_item r (post ! j) sz False = Some img" for j img
  proof -
    from that have "(length pre + 1 + j, post ! j) \<in> set (enumerate 0 ?items)"
      by (simp add: in_set_enumerate_eq nth_append)
    moreover from that have "render_item r (post ! j) sz False = Some img" by simp
    ultimately show ?thesis
      using overview_fold_pastes [where r = r and sz = sz and img = img and cols = ?cols
          and cell = ?cell and st = "(?blank, [])" and xs = "enumerate 0 ?items"
          and idx = "length pre + 1 + j" and name = "post ! j"]
      by simp
  qed
  have blank: "Paste img (cell_origin ?cols ?cell (length pre)) \<notin> set (im_ops ?res)"
    if cell: "?cell \<noteq> 0" for img
  proof
    assume "Paste img (cell_origin ?cols ?cell (length pre)) \<in> set (im_ops ?res)"
    from overview_fold_paste_source [OF this]
    obtain p where p: "p \<in> set (enumerate 0 ?items)"
      and some: "render_item r (snd p) sz False \<noteq> None"
      and pos: "cell_origin ?cols ?cell (length pre) = cell_origin ?cols ?cell (fst p)"
      by (auto simp: Image_new_def)
    from cell_origin_inj [OF cell pos] have "fst p = length pre" by simp
    with p have "snd p = X" by (simp add: in_set_enumerate_eq nth_append)
    with some none show False by simp
  qed
  have unlabelled:
    "Text (fst (cell_origin ?cols ?cell (length pre)) + 2,
           snd (cell_origin ?cols ?cell (length pre)) + 2) s c \<notin> set (im_ops ?res)"
    if cell: "?cell \<noteq> 0" for s c
  proof
    assume "Text (fst (cell_origin ?cols ?cell (length pre)) + 2,
                  snd (cell_origin ?cols ?cell (length pre)) + 2) s c \<in> set (im_ops ?res)"
    from overview_fold_text_source [OF this]
    obtain p where p: "p \<in> set (enumerate 0 ?items)"
      and some: "render_item r (snd p) sz False \<noteq> None"
      and pos: "(fst (cell_origin ?cols ?cell (length pre)) + 2,
                 snd (cell_origin ?cols ?cell (length pre)) + 2)
                = (fst (cell_origin ?cols ?cell (fst p)) + 2,
                   snd (cell_origin ?cols ?cell (fst p)) + 2)"
      by (auto simp: Image_new_def)
    from pos have "cell_origin ?cols ?cell (length pre) = cell_origin ?cols ?cell (fst p)"
      by (simp add: prod_eq_iff)
    from cell_origin_inj [OF cell this] have "fst p = length pre" by simp
    with p have "snd p = X" by (simp add: in_set_enumerate_eq nth_append)
    with some none show False by simp
  qed
  show "\<exists>overview msg.
            render_overview r sz overlays =
              Inr (map (\<lambda>name. Render_item name sz False) (pre @ X # post) @
                   [Makedirs (output_dir r),
                    Save (os_path_join (output_dir r) OVERVIEW_FILENAME) overview,
                    Print msg])
          \<and> (\<forall>j img. j < length post \<and> render_item r (post ! j) sz False = Some img \<longrightarrow>
                Paste (if im_size img \<noteq> (sz, sz) then resize img (sz, sz) LANCZOS else img)
                  (cell_origin (overview_cols (length (pre @ X # post))) (sz + GRID_PADDING)
                     (length pre + 1 + j))
                  \<in> set (im_ops overview))
          \<and> (\<forall>img. sz + GRID_PADDING \<noteq> 0 \<longrightarrow>
                Paste img
                  (cell_origin (overview_cols (length (pre @ X # post))) (sz + GRID_PADDING)
                     (length pre))
                  \<notin> set (im_ops overview))
          \<and> (\<forall>s c. sz + GRID_PADDING \<noteq> 0 \<longrightarrow>
                Text
                  (fst (cell_origin (overview_cols (length (pre @ X # post))) (sz + GRID_PADDING)
                          (length pre)) + 2,
                   snd (cell_origin (overview_cols (length (pre @ X # post))) (sz + GRID_PADDING)
                          (length pre)) + 2) s c
                  \<notin> set (im_ops overview))"
    using render_overview_result [OF ne, of sz overlays] later blank unlabelled
    unfolding items by blast
qed

text \<open>Three items of which the second, \<open>card\<close>, has no rendering: \<open>nav\<close> is still saved
  by the pipeline, and still pasted in the third cell of the overview, at (264, 8); the
  second cell, at (136, 8), receives nothing.\<close>

theorem C4_absent_result_skips_one_item_witness:
  "render_item Example_without_card ''card'' 120 True = None
   \<and> render_items Example_without_card ([''button''] @ ''card'' # [''nav'']) 120 True =
       render_items Example_without_card [''button''] 120 True @
       [Render_item ''card'' 120 True,
        Print (''  Warning: render_item returned None for '' @ [CHR 0x27] @ ''card'' @ [CHR 0x27]
               @ '', skipping'')]
       @ render_items_loop Example_without_card [''nav''] 120 True
   \<and> (\<exists>img. render_item Example_without_card ''nav'' 120 True = Some img
         \<and> Save ''build/previews/nav.png'' img
            \<in> set (render_items Example_without_card ([''button''] @ ''card'' # [''nav'']) 120 True))
   \<and> get_items Example_without_card = [''button''] @ ''card'' # [''nav'']
   \<and> render_item Example_without_card ''card'' 120 False = None
   \<and> (\<exists>overview msg.
         render_overview Example_without_card 120 True =
           Inr [Render_item ''button'' 120 False, Render_item ''card'' 120 False,
                Render_item ''nav'' 120 False,
                Makedirs ''build/previews'',
                Save ''build/previews/overview.png'' overview,
                Print msg]
       \<and> Paste (Image (120, 120) (Blank ''RGB'' BG_COLOR)
                  [Rounded_rectangle [20, 20, 100, 100] 10 (RGB 160 60 120) FG_COLOR 2,
                   Text (28, 28) ''nav'' FG_COLOR]) (264, 8) \<in> set (im_ops overview)
       \<and> (\<forall>img. Paste img (136, 8) \<notin> set (im_ops overview))
       \<and> (\<forall>s c. Text (138, 10) s c \<notin> set (im_ops overview)))"
proof -
  let ?r = "Example_without_card"
  let ?nav = "Image (120, 120) (Blank ''RGB'' BG_COLOR)
                  [Rounded_rectangle [20, 20, 100, 100] 10 (RGB 160 60 120) FG_COLOR 2,
                   Text (28, 28) ''nav'' FG_COLOR]"
  have card: "render_item ?r ''card'' 120 True = None"
    and card': "render_item ?r ''card'' 120 False = None"
    and items: "get_items ?r = [''button''] @ ''card'' # [''nav'']"
    and dir: "output_dir ?r = ''build/previews''"
    by (simp_all add: Example_without_card_def ExampleRenderer_def OUTPUT_DIR_def)
  have nav: "render_item ?r ''nav'' 120 False = Some ?nav"
    by (simp add: Example_without_card_def Example_render_item_def Image_new_def draw_on_def Let_def
          EXAMPLE_ITEMS_def EXAMPLE_COLORS_def)
  obtain img where nav': "render_item ?r ''nav'' 120 True = Some img"
    by (simp add: Example_without_card_def Example_render_item_def Let_def)
  have path: "os_path_join ''build/previews'' OVERVIEW_FILENAME = ''build/previews/overview.png''"
    "os_path_join ''build/previews'' (safe_name ''nav'' @ ''.png'') = ''build/previews/nav.png''"
    by (simp_all add: os_path_join_def OVERVIEW_FILENAME_def safe_name_def str_replace_def)
  have len: "length ([''button''] @ ''card'' # [''nav'']) = 3" by simp
  have cols: "overview_cols (length ([''button''] @ ''card'' # [''nav''])) = 3"
    unfolding len by (rule overview_cols_3)
  note inst = C4_absent_result_skips_one_item
    [of ?r "''card''" 120 True "[''button'']" "[''nav'']"]
  from inst card have split:
    "render_items ?r ([''button''] @ ''card'' # [''nav'']) 120 True =
       render_items ?r [''button''] 120 True @
       [Render_item ''card'' 120 True,
        Print (''  Warning: render_item returned None for '' @ [CHR 0x27] @ ''card'' @ [CHR 0x27]
               @ '', skipping'')]
       @ render_items_loop ?r [''nav''] 120 True"
    and saves: "\<And>Y img. Y \<in> set [''nav''] \<and> render_item ?r Y 120 True = Some img \<Longrightarrow>
          Save (os_path_join (output_dir ?r) (safe_name Y @ ''.png'')) img
            \<in> set (render_items ?r ([''button''] @ ''card'' # [''nav'']) 120 True)"
    by blast+
  have "''nav'' \<in> set [''nav''] \<and> render_item ?r ''nav'' 120 True = Some img"
    using nav' by simp
  from saves [OF this] have saved:
    "Save ''build/previews/nav.png'' img
       \<in> set (render_items ?r ([''button''] @ ''card'' # [''nav'']) 120 True)"
    by (simp only: dir path)
  from inst items card' obtain overview msg where
    res: "render_overview ?r 120 True =
              Inr (map (\<lambda>name. Render_item name 120 False) ([''button''] @ ''card'' # [''nav'']) @
                   [Makedirs (output_dir ?r),
                    Save (os_path_join (output_dir ?r) OVERVIEW_FILENAME) overview,
                    Print msg])"
    and later: "\<And>j img. j < length [''nav''] \<and> render_item ?r ([''nav''] ! j) 120 False = Some img \<Longrightarrow>
                Paste (if im_size img \<noteq> (120, 120) then resize img (120, 120) LANCZOS else img)
                  (cell_origin (overview_cols (length ([''button''] @ ''card'' # [''nav''])))
                     (120 + GRID_PADDING) (length [''button''] + 1 + j))
                  \<in> set (im_ops overview)"
    and blank: "\<And>img. 120 + GRID_PADDING \<noteq> 0 \<Longrightarrow>
                Paste img
                  (cell_origin (overview_cols (length ([''button''] @ ''card'' # [''nav''])))
                     (120 + GRID_PADDING) (length [''button'']))
                  \<notin> set (im_ops overview)"
    and unlabelled: "\<And>s c. 120 + GRID_PADDING \<noteq> 0 \<Longrightarrow>
                Text
                  (fst (cell_origin (overview_cols (length ([''button''] @ ''card'' # [''nav''])))
                          (120 + GRID_PADDING) (length [''button''])) + 2,
                   snd (cell_origin (overview_cols (length ([''button''] @ ''card'' # [''nav''])))
                          (120 + GRID_PADDING) (length [''button''])) + 2) s c
                  \<notin> set (im_ops overview)"
    by blast
  have "0 < length [''nav''] \<and> render_item ?r ([''nav''] ! 0) 120 False = Some ?nav"
    using nav by simp
  from later [OF this] have pasted: "Paste ?nav (264, 8) \<in> set (im_ops overview)"
    unfolding cols by (simp add: cell_origin_eq GRID_PADDING_def)
  have empty: "Paste img (136, 8) \<notin> set (im_ops overview)" for img
    using blank [of img] unfolding cols by (simp add: cell_origin_eq GRID_PADDING_def)
  have no_label: "Text (138, 10) s c \<notin> set (im_ops overview)" for s c
    using unlabelled [of s c] unfolding cols by (simp add: cell_origin_eq GRID_PADDING_def)
  have res': "render_overview ?r 120 True =
           Inr [Render_item ''button'' 120 False, Render_item ''card'' 120 False,
                Render_item ''nav'' 120 False,
                Makedirs ''build/previews'',
                Save ''build/previews/overview.png'' overview,
                Print msg]"
    using res by (simp add: dir path)
  show ?thesis
    using card split nav' saved items card' res' pasted empty no_label by blast
qed

text \<open>
  C5 (as amended). \<open>draw_grid\<close> has one failure: with spacing 0 the first \<open>range\<close> raises
  \<open>ValueError\<close> before anything is drawn. For every other spacing the call returns, having
  drawn one vertical line per element of \<open>range(0, width, spacing)\<close> and one horizontal
  line per element of \<open>range(0, height, spacing)\<close>. On an axis whose dimension is not
  negative a negative spacing draws no line; on an axis whose dimension is at most the
  positive spacing at most one line is drawn, the one at offset 0. So a negative spacing
  with a non-negative width and height leaves the canvas as it was.
\<close>

theorem C5_draw_grid_degenerate_spacing:
  "(spacing = 0 \<longrightarrow> draw_grid draw width height spacing c = Inl ValueError)
   \<and> (spacing \<noteq> 0 \<longrightarrow>
        (\<exists>xs ys.
           draw_grid draw width height spacing c =
             Inr (Image (im_size draw) (im_base draw)
                    (im_ops draw @ map (\<lambda>x. Line [(x, 0), (x, height)] c 1) xs
                                 @ map (\<lambda>y. Line [(0, y), (width, y)] c 1) ys))
         \<and> (spacing < 0 \<and> 0 \<le> width \<longrightarrow> xs = [])
         \<and> (spacing < 0 \<and> 0 \<le> height \<longrightarrow> ys = [])
         \<and> (0 < spacing \<and> width \<le> spacing \<longrightarrow> xs = (if 0 < width then [0] else []))
         \<and> (0 < spacing \<and> height \<le> spacing \<longrightarrow> ys = (if 0 < height then [0] else []))))
   \<and> (spacing < 0 \<and> 0 \<le> width \<and> 0 \<le> height \<longrightarrow>
        draw_grid draw width height spacing c = Inr draw)"
proof (intro conjI impI)
  assume "spacing = 0"
  then show "draw_grid draw width height spacing c = Inl ValueError"
    by (simp add: draw_grid_def py_range_zero_step)
next
  assume nz: "spacing \<noteq> 0"
  from py_range_total [OF nz] obtain xs where xs: "py_range 0 width spacing = Inr xs" by blast
  from py_range_total [OF nz] obtain ys where ys: "py_range 0 height spacing = Inr ys" by blast
  have "xs = []" if "spacing < 0 \<and> 0 \<le> width"
    using that xs py_range_negative_step [of spacing width] by simp
  moreover have "ys = []" if "spacing < 0 \<and> 0 \<le> height"
    using that ys py_range_negative_step [of spacing height] by simp
  moreover have "xs = (if 0 < width then [0] else [])" if "0 < spacing \<and> width \<le> spacing"
    using that xs py_range_wide_step [of spacing width] by simp
  moreover have "ys = (if 0 < height then [0] else [])" if "0 < spacing \<and> height \<le> spacing"
    using that ys py_range_wide_step [of spacing height] by simp
  ultimately show "\<exists>xs ys.
           draw_grid draw width height spacing c =
             Inr (Image (im_size draw) (im_base draw)
                    (im_ops draw @ map (\<lambda>x. Line [(x, 0), (x, height)] c 1) xs
                                 @ map (\<lambda>y. Line [(0, y), (width, y)] c 1) ys))
         \<and> (spacing < 0 \<and> 0 \<le> width \<longrightarrow> xs = [])
         \<and> (spacing < 0 \<and> 0 \<le> height \<longrightarrow> ys = [])
         \<and> (0 < spacing \<and> width \<le> spacing \<longrightarrow> xs = (if 0 < width then [0] else []))
         \<and> (0 < spacing \<and> height \<le> spacing \<longrightarrow> ys = (if 0 < height then [0] else []))"
    using draw_grid_lines [OF xs ys, of draw c] by blast
next
  assume "spacing < 0 \<and> 0 \<le> width \<and> 0 \<le> height"
  then show "draw_grid draw width height spacing c = Inr draw"
    by (simp add: draw_grid_def py_range_negative_step)
qed

text \<open>On a 100 by 100 canvas: spacing 0 raises, spacing -10 draws nothing, spacing 100
  draws one line per axis.\<close>

theorem C5_draw_grid_degenerate_spacing_witness:
  "draw_grid (Image_new ''RGB'' (100, 100) BG_COLOR) 100 100 0 draw_grid_default_color
     = Inl ValueError
   \<and> draw_grid (Image_new ''RGB'' (100, 100) BG_COLOR) 100 100 (- 10) draw_grid_default_color
     = Inr (Image_new ''RGB'' (100, 100) BG_COLOR)
   \<and> draw_grid (Image_new ''RGB'' (100, 100) BG_COLOR) 100 100 100 draw_grid_default_color
     = Inr (Image (100, 100) (Blank ''RGB'' BG_COLOR)
              [Line [(0, 0), (0, 100)] draw_grid_default_color 1,
               Line [(0, 0), (100, 0)] draw_grid_default_color 1])"
proof -
  let ?draw = "Image_new ''RGB'' (100, 100) BG_COLOR"
  have zero: "draw_grid ?draw 100 100 0 draw_grid_default_color = Inl ValueError"
    using C5_draw_grid_degenerate_spacing [of 0 ?draw 100 100 draw_grid_default_color] by simp
  have neg: "draw_grid ?draw 100 100 (- 10) draw_grid_default_color = Inr ?draw"
    using C5_draw_grid_degenerate_spacing [of "- 10" ?draw 100 100 draw_grid_default_color] by simp
  from C5_draw_grid_degenerate_spacing [of 100 ?draw 100 100 draw_grid_default_color]
  obtain xs ys where
    "draw_grid ?draw 100 100 100 draw_grid_default_color =
       Inr (Image (im_size ?draw) (im_base ?draw)
              (im_ops ?draw @ map (\<lambda>x. Line [(x, 0), (x, 100)] draw_grid_default_color 1) xs
                            @ map (\<lambda>y. Line [(0, y), (100, y)] draw_grid_default_color 1) ys))"
    and "xs = [0]" and "ys = [0]"
    by auto
  then have wide: "draw_grid ?draw 100 100 100 draw_grid_default_color
     = Inr (Image (100, 100) (Blank ''RGB'' BG_COLOR)
              [Line [(0, 0), (0, 100)] draw_grid_default_color 1,
               Line [(0, 0), (100, 0)] draw_grid_default_color 1])"
    by (simp add: Image_new_def)
  show ?thesis using zero neg wide by blast
qed

text \<open>C5 as stated fails: a grid with spacing 0 on a 100 by 100 canvas raises.\<close>

theorem C5_draw_grid_zero_spacing_raises:
  "draw_grid (Image_new ''RGB'' (100, 100) BG_COLOR) 100 100 0 draw_grid_default_color
     = Inl ValueError"
  by (simp add: draw_grid_def py_range_def)

text \<open>
  C6 (as amended). When overview-only is requested, \<open>run\<close> skips the single-item pipeline
  and the overview is composed over all items of \<open>get_items()\<close>: the item subset of the
  caller is ignored, the result is the one of a run with no subset.
\<close>

theorem C6_overview_only_uses_all_items:
  "run r items sz overlays True no_overview = run r None sz overlays True no_overview
   \<and> (load_artifact r \<longrightarrow>
        (\<exists>evs. render_overview r GRID_CELL_SIZE overlays = Inr evs
           \<and> run r items sz overlays True no_overview =
               Inr (True, [Print ''Loading artifact...'', Print ''Rendering overview...'']
                          @ evs @ [Print ''Done.''])))
   \<and> (load_artifact r \<and> get_items r \<noteq> [] \<longrightarrow>
        (\<exists>overview msg.
           run r items sz overlays True no_overview =
             Inr (True, [Print ''Loading artifact...'', Print ''Rendering overview...'']
                        @ map (\<lambda>name. Render_item name GRID_CELL_SIZE False) (get_items r)
                        @ [Makedirs (output_dir r),
                           Save (os_path_join (output_dir r) OVERVIEW_FILENAME) overview,
                           Print msg,
                           Print ''Done.''])))"
proof (intro conjI impI)
  show "run r items sz overlays True no_overview = run r None sz overlays True no_overview"
    by (simp add: run_def Let_def)
next
  assume load: "load_artifact r"
  obtain evs where evs: "render_overview r GRID_CELL_SIZE overlays = Inr evs"
    using render_overview_total by blast
  show "\<exists>evs. render_overview r GRID_CELL_SIZE overlays = Inr evs
           \<and> run r items sz overlays True no_overview =
               Inr (True, [Print ''Loading artifact...'', Print ''Rendering overview...'']
                          @ evs @ [Print ''Done.''])"
    using evs run_overview_only [OF load evs] by blast
next
  assume "load_artifact r \<and> get_items r \<noteq> []"
  then have load: "load_artifact r" and ne: "get_items r \<noteq> []" by simp_all
  show "\<exists>overview msg.
           run r items sz overlays True no_overview =
             Inr (True, [Print ''Loading artifact...'', Print ''Rendering overview...'']
                        @ map (\<lambda>name. Render_item name GRID_CELL_SIZE False) (get_items r)
                        @ [Makedirs (output_dir r),
                           Save (os_path_join (output_dir r) OVERVIEW_FILENAME) overview,
                           Print msg,
                           Print ''Done.''])"
    using run_overview_only [OF load render_overview_result [OF ne, of GRID_CELL_SIZE overlays]]
    by simp
qed

text \<open>The example renderer asked for the overview of \<open>button\<close> alone composes all ten
  items.\<close>

theorem C6_overview_only_uses_all_items_witness:
  "load_artifact ExampleRenderer \<and> get_items ExampleRenderer \<noteq> []
   \<and> run ExampleRenderer (Some [''button'']) 400 True True False
       = run ExampleRenderer None 400 True True False
   \<and> (\<exists>overview msg.
         run ExampleRenderer (Some [''button'']) 400 True True False =
           Inr (True, [Print ''Loading artifact...'', Print ''Rendering overview...'']
                      @ map (\<lambda>name. Render_item name 120 False) EXAMPLE_ITEMS
                      @ [Makedirs ''build/previews'',
                         Save ''build/previews/overview.png'' overview,
                         Print msg,
                         Print ''Done.'']))"
proof -
  have load: "load_artifact ExampleRenderer"
    and items: "get_items ExampleRenderer = EXAMPLE_ITEMS"
    and dir: "output_dir ExampleRenderer = ''build/previews''"
    by (simp_all add: ExampleRenderer_def OUTPUT_DIR_def)
  have ne: "get_items ExampleRenderer \<noteq> []" by (simp add: items EXAMPLE_ITEMS_def)
  have path: "os_path_join ''build/previews'' OVERVIEW_FILENAME = ''build/previews/overview.png''"
    by (simp add: os_path_join_def OVERVIEW_FILENAME_def)
  show ?thesis
    using C6_overview_only_uses_all_items [of ExampleRenderer "Some [''button'']" 400 True False]
      load ne
    unfolding items dir path GRID_CELL_SIZE_def by blast
qed

text \<open>C6 as stated fails: with the subset \<open>button\<close> and overview-only, the overview still
  renders \<open>header\<close>, which is not in the subset.\<close>

theorem C6_overview_renders_outside_subset:
  "''header'' \<notin> set [''button'']
   \<and> Render_item ''header'' 120 False
       \<in> set (run_events (run ExampleRenderer (Some [''button'']) 400 True True False))"
proof -
  have load: "load_artifact ExampleRenderer"
    and items: "get_items ExampleRenderer = EXAMPLE_ITEMS"
    by (simp_all add: ExampleRenderer_def)
  have ne: "get_items ExampleRenderer \<noteq> []" by (simp add: items EXAMPLE_ITEMS_def)
  show ?thesis
    using run_overview_only [OF load render_overview_result [OF ne, of GRID_CELL_SIZE True],
        of "Some [''button'']" 400 False]
    by (simp add: run_events_def items EXAMPLE_ITEMS_def GRID_CELL_SIZE_def)
qed

text \<open>
  C7. When \<open>get_items()\<close> is empty, \<open>render_overview\<close> prints its notice and does nothing
  else: no directory is created, no file is saved, no error is raised. A run whose artifact
  loads still returns true; an overview-only run is the three progress lines around the
  notice.
\<close>

theorem C7_empty_overview:
  "get_items r = [] \<Longrightarrow>
     render_overview r sz overlays = Inr [Print ''  No items to render in overview'']
   \<and> (load_artifact r \<longrightarrow>
        (\<exists>evs. run r items sz overlays overview_only no_overview = Inr (True, evs)))
   \<and> (load_artifact r \<longrightarrow>
        run r items sz overlays True no_overview =
          Inr (True, [Print ''Loading artifact...'', Print ''Rendering overview...'',
                      Print ''  No items to render in overview'', Print ''Done.'']))"
proof -
  assume empty: "get_items r = []"
  have notice: "render_overview r s b = Inr [Print ''  No items to render in overview'']" for s b
    using empty by (simp add: render_overview_def)
  have "\<exists>evs. run r items sz overlays overview_only no_overview = Inr (True, evs)"
    if "load_artifact r"
    using run_returns_load_artifact [of r items sz overlays overview_only no_overview] that
    by simp
  moreover have "run r items sz overlays True no_overview =
          Inr (True, [Print ''Loading artifact...'', Print ''Rendering overview...'',
                      Print ''  No items to render in overview'', Print ''Done.''])"
    if "load_artifact r"
    using run_overview_only [OF that notice] by simp
  ultimately show ?thesis using notice by blast
qed

text \<open>The example renderer with no items.\<close>

theorem C7_empty_overview_witness:
  "get_items (ExampleRenderer\<lparr>get_items := []\<rparr>) = []
   \<and> load_artifact (ExampleRenderer\<lparr>get_items := []\<rparr>)
   \<and> render_overview (ExampleRenderer\<lparr>get_items := []\<rparr>) 120 True
       = Inr [Print ''  No items to render in overview'']
   \<and> run (ExampleRenderer\<lparr>get_items := []\<rparr>) None 400 True True False =
       Inr (True, [Print ''Loading artifact...'', Print ''Rendering overview...'',
                   Print ''  No items to render in overview'', Print ''Done.''])
   \<and> (\<exists>evs. run (ExampleRenderer\<lparr>get_items := []\<rparr>) None 400 True False False = Inr (True, evs))"
proof -
  let ?r = "ExampleRenderer\<lparr>get_items := []\<rparr>"
  have empty: "get_items ?r = []" by simp
  have load: "load_artifact ?r" by (simp add: ExampleRenderer_def)
  show ?thesis
    using
      C7_empty_overview [OF empty, where sz = 120 and overlays = True and items = None
        and overview_only = True and no_overview = False]
      C7_empty_overview [OF empty, where sz = 400 and overlays = True and items = None
        and overview_only = True and no_overview = False]
      C7_empty_overview [OF empty, where sz = 400 and overlays = True and items = None
        and overview_only = False and no_overview = False]
      empty load
    by blast
qed

text \<open>
  C8. \<open>run\<close> always returns, and returns the truth value of \<open>load_artifact()\<close>: false exactly
  when loading failed, in which case the run is the two console lines and nothing is
  rendered, created or saved; true otherwise, whatever \<open>render_item\<close> returns for the items.
\<close>

theorem C8_run_outcome:
  "\<exists>evs. run r items sz overlays overview_only no_overview = Inr (load_artifact r, evs)
     \<and> (\<not> load_artifact r \<longrightarrow>
          evs = [Print ''Loading artifact...'', Print ''Error: Failed to load artifact''])"
proof (cases "load_artifact r")
  case True
  then show ?thesis
    using run_returns_load_artifact [of r items sz overlays overview_only no_overview] by auto
next
  case False
  then show ?thesis by (simp add: run_load_failed)
qed

text \<open>A renderer whose artifact does not load, and one whose artifact loads but which
  cannot render one of its items.\<close>

theorem C8_run_outcome_witness:
  "\<not> load_artifact (ExampleRenderer\<lparr>load_artifact := False\<rparr>)
   \<and> run (ExampleRenderer\<lparr>load_artifact := False\<rparr>) None 400 True False False =
       Inr (False, [Print ''Loading artifact...'', Print ''Error: Failed to load artifact''])
   \<and> load_artifact Example_without_card
   \<and> (\<exists>evs. run Example_without_card None 400 True False False = Inr (True, evs))"
proof -
  have a: "\<not> load_artifact (ExampleRenderer\<lparr>load_artifact := False\<rparr>)" by simp
  have b: "load_artifact Example_without_card"
    by (simp add: Example_without_card_def ExampleRenderer_def)
  show ?thesis
    using C8_run_outcome [of "ExampleRenderer\<lparr>load_artifact := False\<rparr>" None 400 True False False]
      C8_run_outcome [of Example_without_card None 400 True False False] a b
    by auto
qed

text \<open>
  C9. \<open>render_items\<close> first creates the output directory. For every name of the list whose
  rendering is an image, that image is then saved at the path that joins the output
  directory and \<open>safe_name.png\<close>, where the safe name is the name with every slash and
  every backslash replaced by an underscore; for an output directory that is not empty and
  does not end in a slash the path is \<open>output_dir/safe_name.png\<close>.
\<close>

theorem C9_rendered_items_are_saved:
  "(\<exists>rest. render_items r item_names sz overlays = Makedirs (output_dir r) # rest
      \<and> (\<forall>name img. name \<in> set item_names \<and> render_item r name sz overlays = Some img \<longrightarrow>
            Save (os_path_join (output_dir r) (safe_name name @ ''.png'')) img \<in> set rest))
   \<and> safe_name name = map (\<lambda>c. if c = CHR ''/'' \<or> c = CHR 0x5C then CHR ''_'' else c) name
   \<and> CHR ''/'' \<notin> set (safe_name name) \<and> CHR 0x5C \<notin> set (safe_name name)
   \<and> (output_dir r \<noteq> [] \<and> last (output_dir r) \<noteq> CHR ''/'' \<longrightarrow>
        os_path_join (output_dir r) (safe_name name @ ''.png'')
          = output_dir r @ ''/'' @ safe_name name @ ''.png'')"
proof -
  have "\<forall>name img. name \<in> set item_names \<and> render_item r name sz overlays = Some img \<longrightarrow>
            Save (os_path_join (output_dir r) (safe_name name @ ''.png'')) img
              \<in> set (render_items_loop r item_names sz overlays)"
    using render_items_loop_saves by blast
  then have saved: "\<exists>rest. render_items r item_names sz overlays = Makedirs (output_dir r) # rest
      \<and> (\<forall>name img. name \<in> set item_names \<and> render_item r name sz overlays = Some img \<longrightarrow>
            Save (os_path_join (output_dir r) (safe_name name @ ''.png'')) img \<in> set rest)"
    by (simp add: render_items_def)
  have "hd (safe_name name @ ''.png'') \<noteq> CHR ''/''"
    using safe_name_clean [of name] by (cases "safe_name name") auto
  then have path: "os_path_join (output_dir r) (safe_name name @ ''.png'')
          = output_dir r @ ''/'' @ safe_name name @ ''.png''"
    if "output_dir r \<noteq> [] \<and> last (output_dir r) \<noteq> CHR ''/''"
    using that by (simp add: os_path_join_def)
  show ?thesis
    using saved safe_name_map [of name] safe_name_clean [of name] path by blast
qed

text \<open>The example renderer asked for an item named \<open>icons/ok\<close>: the image is saved as
  \<open>build/previews/icons_ok.png\<close>, after the directory is created.\<close>

theorem C9_rendered_items_are_saved_witness:
  "output_dir ExampleRenderer \<noteq> [] \<and> last (output_dir ExampleRenderer) \<noteq> CHR ''/''
   \<and> safe_name ''icons/ok'' = ''icons_ok''
   \<and> (\<exists>img rest. render_item ExampleRenderer ''icons/ok'' 400 False = Some img
         \<and> render_items ExampleRenderer [''icons/ok''] 400 False = Makedirs ''build/previews'' # rest
         \<and> Save ''build/previews/icons_ok.png'' img \<in> set rest)"
proof -
  let ?r = ExampleRenderer
  have dir: "output_dir ?r = ''build/previews''" by (simp add: ExampleRenderer_def OUTPUT_DIR_def)
  have dir_ok: "output_dir ?r \<noteq> [] \<and> last (output_dir ?r) \<noteq> CHR ''/''" by (simp add: dir)
  obtain img where img: "render_item ?r ''icons/ok'' 400 False = Some img"
    by (simp add: ExampleRenderer_def Example_render_item_def Let_def)
  note inst = C9_rendered_items_are_saved [of ?r "[''icons/ok'']" 400 False "''icons/ok''"]
  from inst have safe: "safe_name ''icons/ok'' = ''icons_ok''" by simp
  from inst dir_ok have
    "os_path_join (output_dir ?r) (safe_name ''icons/ok'' @ ''.png'')
       = output_dir ?r @ ''/'' @ safe_name ''icons/ok'' @ ''.png''"
    by blast
  then have path:
    "os_path_join (output_dir ?r) (safe_name ''icons/ok'' @ ''.png'') = ''build/previews/icons_ok.png''"
    by (simp add: dir safe)
  from inst obtain rest where
    rest: "render_items ?r [''icons/ok''] 400 False = Makedirs (output_dir ?r) # rest"
    and saves: "\<And>name img. name \<in> set [''icons/ok''] \<and> render_item ?r name 400 False = Some img \<Longrightarrow>
            Save (os_path_join (output_dir ?r) (safe_name name @ ''.png'')) img \<in> set rest"
    by blast
  have "''icons/ok'' \<in> set [''icons/ok''] \<and> render_item ?r ''icons/ok'' 400 False = Some img"
    using img by simp
  from saves [OF this] have "Save ''build/previews/icons_ok.png'' img \<in> set rest"
    by (simp only: path)
  then show ?thesis using dir_ok safe img rest unfolding dir by blast
qed

text \<open>
  C10. A run with the empty item list is the run with no item subset: the empty list is
  falsy, so the single-item pipeline runs over all items of \<open>get_items()\<close>. When the
  artifact loads and overview-only is off, the events of the run are the two progress
  lines, the creation of the output directory, then for each item of \<open>get_items()\<close>, in
  order, the call of \<open>render_item\<close> followed by the warning or by the saved file and its
  line; only what comes after the pipeline (the overview, the last line) follows. So every
  item is handed to \<open>render_item\<close> and every item that renders is saved.
\<close>

theorem C10_empty_subset_is_no_subset:
  "run r (Some []) sz overlays overview_only no_overview
     = run r None sz overlays overview_only no_overview
   \<and> (load_artifact r \<and> \<not> overview_only \<longrightarrow>
        (\<exists>evs rest.
           run r (Some []) sz overlays overview_only no_overview = Inr (True, evs)
         \<and> evs =
             [Print ''Loading artifact...'',
              Print (''Rendering '' @ str_int (int (length (get_items r))) @ '' item(s) at ''
                     @ str_int sz @ ''px...''),
              Makedirs (output_dir r)]
             @ concat (map (\<lambda>name.
                  Render_item name sz overlays #
                  (case render_item r name sz overlays of
                     None \<Rightarrow>
                       [Print (''  Warning: render_item returned None for '' @ [CHR 0x27] @ name
                               @ [CHR 0x27] @ '', skipping'')]
                   | Some img \<Rightarrow>
                       [Save (os_path_join (output_dir r) (safe_name name @ ''.png'')) img,
                        Print (''  '' @ name @ '' -> ''
                               @ os_path_join (output_dir r) (safe_name name @ ''.png''))]))
                (get_items r))
             @ rest
         \<and> (no_overview \<longrightarrow> rest = [Print ''Done.''])
         \<and> (\<forall>name. name \<in> set (get_items r) \<longrightarrow> Render_item name sz overlays \<in> set evs)
         \<and> (\<forall>name img.
               name \<in> set (get_items r) \<and> render_item r name sz overlays = Some img \<longrightarrow>
               Save (os_path_join (output_dir r) (safe_name name @ ''.png'')) img \<in> set evs)))"
proof (intro conjI impI)
  show "run r (Some []) sz overlays overview_only no_overview
     = run r None sz overlays overview_only no_overview"
    by (simp add: run_def Let_def)
next
  assume "load_artifact r \<and> \<not> overview_only"
  then have load: "load_artifact r" and items: "overview_only = False" by simp_all
  obtain ovs where ovs: "render_overview r GRID_CELL_SIZE overlays = Inr ovs"
    using render_overview_total by blast
  let ?head = "[Print ''Loading artifact...'',
              Print (''Rendering '' @ str_int (int (length (get_items r))) @ '' item(s) at ''
                     @ str_int sz @ ''px...''),
              Makedirs (output_dir r)]"
  let ?rest = "if \<not> no_overview then [Print ''Rendering overview...''] @ ovs @ [Print ''Done.'']
               else [Print ''Done.'']"
  let ?evs = "?head @ render_items_loop r (get_items r) sz overlays @ ?rest"
  have res: "run r (Some []) sz overlays overview_only no_overview = Inr (True, ?evs)"
    unfolding items using run_items [OF load ovs, of "Some []" sz no_overview]
    by (simp add: render_items_def)
  have calls: "Render_item name sz overlays \<in> set ?evs" if "name \<in> set (get_items r)" for name
    using render_items_loop_calls [OF that, of sz overlays r] by simp
  have saves: "Save (os_path_join (output_dir r) (safe_name name @ ''.png'')) img \<in> set ?evs"
    if "name \<in> set (get_items r) \<and> render_item r name sz overlays = Some img" for name img
    using render_items_loop_saves [of name "get_items r" r sz overlays img] that by simp
  have shape: "?evs = ?head
             @ concat (map (\<lambda>name.
                  Render_item name sz overlays #
                  (case render_item r name sz overlays of
                     None \<Rightarrow>
                       [Print (''  Warning: render_item returned None for '' @ [CHR 0x27] @ name
                               @ [CHR 0x27] @ '', skipping'')]
                   | Some img \<Rightarrow>
                       [Save (os_path_join (output_dir r) (safe_name name @ ''.png'')) img,
                        Print (''  '' @ name @ '' -> ''
                               @ os_path_join (output_dir r) (safe_name name @ ''.png''))]))
                (get_items r))
             @ ?rest"
    by (simp only: render_items_loop_concat [symmetric])
  have last: "no_overview \<longrightarrow> ?rest = [Print ''Done.'']" by simp
  show "\<exists>evs rest.
           run r (Some []) sz overlays overview_only no_overview = Inr (True, evs)
         \<and> evs =
             [Print ''Loading artifact...'',
              Print (''Rendering '' @ str_int (int (length (get_items r))) @ '' item(s) at ''
                     @ str_int sz @ ''px...''),
              Makedirs (output_dir r)]
             @ concat (map (\<lambda>name.
                  Render_item name sz overlays #
                  (case render_item r name sz overlays of
                     None \<Rightarrow>
                       [Print (''  Warning: render_item returned None for '' @ [CHR 0x27] @ name
                               @ [CHR 0x27] @ '', skipping'')]
                   | Some img \<Rightarrow>
                       [Save (os_path_join (output_dir r) (safe_name name @ ''.png'')) img,
                        Print (''  '' @ name @ '' -> ''
                               @ os_path_join (output_dir r) (safe_name name @ ''.png''))]))
                (get_items r))
             @ rest
         \<and> (no_overview \<longrightarrow> rest = [Print ''Done.''])
         \<and> (\<forall>name. name \<in> set (get_items r) \<longrightarrow> Render_item name sz overlays \<in> set evs)
         \<and> (\<forall>name img.
               name \<in> set (get_items r) \<and> render_item r name sz overlays = Some img \<longrightarrow>
               Save (os_path_join (output_dir r) (safe_name name @ ''.png'')) img \<in> set evs)"
    using res shape last calls saves by blast
qed

text \<open>The example renderer run with \<open>items = []\<close> and no overview: the ten items are all
  rendered at 400 pixels, the first and the last among them, and the last one is saved
  as \<open>build/previews/tooltip.png\<close>.\<close>

theorem C10_empty_subset_is_no_subset_witness:
  "load_artifact ExampleRenderer
   \<and> run ExampleRenderer (Some []) 400 False False True = run ExampleRenderer None 400 False False True
   \<and> (\<exists>evs img.
         run ExampleRenderer (Some []) 400 False False True = Inr (True, evs)
       \<and> Render_item ''button'' 400 False \<in> set evs
       \<and> Render_item ''tooltip'' 400 False \<in> set evs
       \<and> render_item ExampleRenderer ''tooltip'' 400 False = Some img
       \<and> Save ''build/previews/tooltip.png'' img \<in> set evs)"
proof -
  let ?r = ExampleRenderer
  have load: "load_artifact ?r"
    and items: "get_items ?r = EXAMPLE_ITEMS"
    and dir: "output_dir ?r = ''build/previews''"
    by (simp_all add: ExampleRenderer_def OUTPUT_DIR_def)
  obtain img where img: "render_item ?r ''tooltip'' 400 False = Some img"
    by (simp add: ExampleRenderer_def Example_render_item_def Let_def)
  have path: "os_path_join ''build/previews'' (safe_name ''tooltip'' @ ''.png'')
                = ''build/previews/tooltip.png''"
    by (simp add: os_path_join_def safe_name_def str_replace_def)
  have mem: "''button'' \<in> set (get_items ?r)" "''tooltip'' \<in> set (get_items ?r)"
    by (simp_all add: items EXAMPLE_ITEMS_def)
  note inst = C10_empty_subset_is_no_subset [of ?r 400 False False True]
  have same: "run ?r (Some []) 400 False False True = run ?r None 400 False False True"
    using inst by (rule conjunct1)
  from inst [THEN conjunct2] load obtain evs where
    res: "run ?r (Some []) 400 False False True = Inr (True, evs)"
    and calls: "\<And>name. name \<in> set (get_items ?r) \<Longrightarrow> Render_item name 400 False \<in> set evs"
    and saves: "\<And>name img. name \<in> set (get_items ?r) \<and> render_item ?r name 400 False = Some img \<Longrightarrow>
               Save (os_path_join (output_dir ?r) (safe_name name @ ''.png'')) img \<in> set evs"
    by blast
  have "''tooltip'' \<in> set (get_items ?r) \<and> render_item ?r ''tooltip'' 400 False = Some img"
    using mem img by simp
  from saves [OF this] have saved: "Save ''build/previews/tooltip.png'' img \<in> set evs"
    by (simp only: dir path)
  show ?thesis
    using load same res calls [OF mem(1)] calls [OF mem(2)] img saved by blast
qed

end
